theory Spec2Isabelle
  imports Main
begin

section \<open>Data model (server/db/schema.ts)\<close>

text \<open>
  The tables of the relational store, one record per row type. Only the columns that the
  modelled operations read or write are kept; the timestamp columns (\<open>createdAt\<close>,
  \<open>updatedAt\<close>) are left out, so the refresh of \<open>updatedAt\<close> done by
  \<open>updateConnectionStatus\<close> is not visible here. Identifiers are JavaScript numbers
  holding integers, modelled as \<open>int\<close>.
\<close>

datatype conn_status = Pending | Accepted | Rejected

record user =
  user_id :: int
  username :: string
  role :: string

record post =
  post_id :: int
  authorId :: int

record document =
  document_id :: int
  ownerId :: int

record connection =
  conn_id :: int
  userId :: int
  connectedUserId :: int
  status :: conn_status

record like =
  like_id :: int
  like_postId :: int
  like_userId :: int

record savedPost =
  sp_id :: int
  sp_postId :: int
  sp_userId :: int

record documentSharing =
  ds_id :: int
  ds_documentId :: int
  ds_userId :: int

text \<open>
  The database: every table is the list of its rows in storage order, and every
  \<open>serial\<close> column has its sequence, whose next value is kept beside the table.
\<close>

record db =
  users :: "user list"
  posts :: "post list"
  documents :: "document list"
  connections :: "connection list"
  connections_seq :: int
  likes :: "like list"
  likes_seq :: int
  savedPosts :: "savedPost list"
  savedPosts_seq :: int
  documentSharings :: "documentSharing list"
  documentSharings_seq :: int

text \<open>The PostgreSQL errors the code looks at: 23505 and 23503.\<close>

datatype pg_error = UniqueViolation | ForeignKeyViolation

definition user_exists :: "db \<Rightarrow> int \<Rightarrow> bool" where
  "user_exists s uid = (uid \<in> user_id ` set (users s))"

definition post_exists :: "db \<Rightarrow> int \<Rightarrow> bool" where
  "post_exists s pid = (pid \<in> post_id ` set (posts s))"

definition document_exists :: "db \<Rightarrow> int \<Rightarrow> bool" where
  "document_exists s did = (did \<in> document_id ` set (documents s))"

section \<open>HTTP layer (server/routes.ts)\<close>

text \<open>
  \<open>req.user\<close> as the token middleware sets it, and the responses the handlers send:
  a status code with a JSON body, or a bare status (\<open>res.sendStatus\<close>).
\<close>

record auth_user =
  au_id :: int
  au_username :: string
  au_role :: string

datatype body =
    Message string
  | ConnectionJson "connection option"
  | LikeJson string bool "like option" nat
  | DbErrorJson pg_error
  | ValidationErrorJson
  | StatusText

datatype response = Response nat body

fun status_code :: "response \<Rightarrow> nat" where
  "status_code (Response n b) = n"

fun status_str :: "conn_status \<Rightarrow> string" where
  "status_str Pending = ''pending''"
| "status_str Accepted = ''accepted''"
| "status_str Rejected = ''rejected''"

section \<open>Connection subsystem\<close>

subsection \<open>Storage operations (server/storage.ts)\<close>

text \<open>
  \<open>createConnection\<close>: the insert draws the next value of the sequence (also when the
  insert then fails), checks the primary key and the two foreign keys to \<open>users\<close>, and
  stores the row with status pending. The source rethrows the database error.
\<close>

definition createConnection :: "db \<Rightarrow> int \<Rightarrow> int \<Rightarrow> (pg_error + connection) \<times> db" where
  "createConnection s uid cuid =
     (let newId = connections_seq s;
          s1 = s\<lparr>connections_seq := newId + 1\<rparr>;
          row = \<lparr>conn_id = newId, userId = uid, connectedUserId = cuid, status = Pending\<rparr>
      in if newId \<in> conn_id ` set (connections s) then (Inl UniqueViolation, s1)
         else if \<not> (user_exists s uid \<and> user_exists s cuid) then (Inl ForeignKeyViolation, s1)
         else (Inr row, s1\<lparr>connections := connections s @ [row]\<rparr>))"

definition getConnectionById :: "db \<Rightarrow> int \<Rightarrow> connection option" where
  "getConnectionById s cid = find (\<lambda>c. conn_id c = cid) (connections s)"

text \<open>
  \<open>updateConnectionStatus\<close>: every row with the given id gets the new status; the
  first updated row is returned (\<open>result[0]\<close>, undefined when no row matched).
\<close>

definition updateConnectionStatus :: "db \<Rightarrow> int \<Rightarrow> conn_status \<Rightarrow> connection option \<times> db" where
  "updateConnectionStatus s cid st =
     (let rows = map (\<lambda>c. if conn_id c = cid then c\<lparr>status := st\<rparr> else c) (connections s)
      in (find (\<lambda>c. conn_id c = cid) rows, s\<lparr>connections := rows\<rparr>))"

subsection \<open>Route handlers\<close>

text \<open>
  The handlers take the database, \<open>req.user\<close> (absent when no middleware set it) and
  the request parameter after \<open>parseInt\<close> (\<open>None\<close> is NaN), and return the response
  with the database after the request.
\<close>

definition accept_handler :: "db \<Rightarrow> auth_user option \<Rightarrow> int option \<Rightarrow> response \<times> db" where
  "accept_handler s reqUser connectionId =
     (case reqUser of
        None \<Rightarrow> (Response 401 (Message ''User not authenticated''), s)
      | Some u \<Rightarrow>
          (case connectionId of
             None \<Rightarrow> (Response 400 (Message ''Invalid connection ID''), s)
           | Some cid \<Rightarrow>
               (case getConnectionById s cid of
                  None \<Rightarrow> (Response 404 (Message ''Connection not found''), s)
                | Some c \<Rightarrow>
                    if connectedUserId c \<noteq> au_id u
                    then (Response 403 (Message ''Forbidden: You cannot accept this connection request.''), s)
                    else if status c \<noteq> Pending
                    then (Response 400 (Message (''Connection is already '' @ status_str (status c) @ ''.'')), s)
                    else (case updateConnectionStatus s cid Accepted of
                            (updated, s') \<Rightarrow> (Response 200 (ConnectionJson updated), s')))))"

definition reject_handler :: "db \<Rightarrow> auth_user option \<Rightarrow> int option \<Rightarrow> response \<times> db" where
  "reject_handler s reqUser connectionId =
     (case reqUser of
        None \<Rightarrow> (Response 401 (Message ''User not authenticated''), s)
      | Some u \<Rightarrow>
          (case connectionId of
             None \<Rightarrow> (Response 400 (Message ''Invalid connection ID''), s)
           | Some cid \<Rightarrow>
               (case getConnectionById s cid of
                  None \<Rightarrow> (Response 404 (Message ''Connection not found''), s)
                | Some c \<Rightarrow>
                    if connectedUserId c \<noteq> au_id u
                       \<and> (if userId c = au_id u \<and> status c = Pending then False else True)
                    then (Response 403 (Message ''Forbidden: You cannot reject this connection request.''), s)
                    else if status c \<noteq> Pending
                    then (Response 400 (Message (''Connection is already '' @ status_str (status c) @ ''.'')), s)
                    else (case updateConnectionStatus s cid Rejected of
                            (updated, s') \<Rightarrow> (Response 200 (ConnectionJson updated), s')))))"

text \<open>
  \<open>POST /api/connections/connect\<close>: the body's \<open>userId\<close> is \<open>None\<close> when the
  insert schema refuses it (absent, or not an integer), which the handler reports as 400;
  a database error becomes 500.
\<close>

definition connect_handler :: "db \<Rightarrow> auth_user option \<Rightarrow> int option \<Rightarrow> response \<times> db" where
  "connect_handler s reqUser bodyUserId =
     (case reqUser of
        None \<Rightarrow> (Response 401 (Message ''User not authenticated''), s)
      | Some u \<Rightarrow>
          (case bodyUserId of
             None \<Rightarrow> (Response 400 ValidationErrorJson, s)
           | Some target \<Rightarrow>
               (case createConnection s (au_id u) target of
                  (Inl e, s') \<Rightarrow> (Response 500 (DbErrorJson e), s')
                | (Inr c, s') \<Rightarrow> (Response 201 (ConnectionJson (Some c)), s'))))"

text \<open>
  The documented operations as requests, with the arguments their handlers receive, and
  the database after one request and after a sequence of them.
\<close>

datatype op =
    Request "auth_user option" "int option"
  | Accept "auth_user option" "int option"
  | Reject "auth_user option" "int option"

fun step :: "db \<Rightarrow> op \<Rightarrow> db" where
  "step s (Request reqUser bodyUserId) = snd (connect_handler s reqUser bodyUserId)"
| "step s (Accept reqUser connectionId) = snd (accept_handler s reqUser connectionId)"
| "step s (Reject reqUser connectionId) = snd (reject_handler s reqUser connectionId)"

fun run :: "db \<Rightarrow> op list \<Rightarrow> db" where
  "run s [] = s"
| "run s (x # xs) = run (step s x) xs"

text \<open>A request for a connection from a user to that same user.\<close>

fun self_request :: "op \<Rightarrow> bool" where
  "self_request (Request (Some u) (Some target)) = (au_id u = target)"
| "self_request x = False"

subsection \<open>Queries over the connection table (server/storage.ts)\<close>

text \<open>A JavaScript \<open>Set\<close> built from an array: the distinct elements, first occurrence first.\<close>

definition new_Set :: "'a list \<Rightarrow> 'a list" where
  "new_Set xs = rev (remdups (rev xs))"

definition getUserSuggestions :: "db \<Rightarrow> int \<Rightarrow> user list" where
  "getUserSuggestions s uid =
     (let existingConnections =
            filter (\<lambda>c. userId c = uid \<or> connectedUserId c = uid) (connections s);
          connectedUserIds =
            new_Set (concat (map (\<lambda>c. [userId c, connectedUserId c]) existingConnections) @ [uid]);
          allUsers = users s
      in filter (\<lambda>u. user_id u \<notin> set connectedUserIds) allUsers)"

text \<open>
  \<open>getMutualConnections\<close>: the final query \<open>id in mutualIds\<close> is a selection on the
  users table, in the table's order.
\<close>

definition getMutualConnections :: "db \<Rightarrow> int \<Rightarrow> int \<Rightarrow> user list" where
  "getMutualConnections s userId1 userId2 =
     (let connections1 =
            filter (\<lambda>c. (userId c = userId1 \<or> connectedUserId c = userId1) \<and> status c = Accepted)
              (connections s);
          connectedIds1 =
            new_Set (map (\<lambda>c. if userId c = userId1 then connectedUserId c else userId c) connections1);
          connections2 =
            filter (\<lambda>c. (userId c = userId2 \<or> connectedUserId c = userId2) \<and> status c = Accepted)
              (connections s);
          connectedIds2 =
            new_Set (map (\<lambda>c. if userId c = userId2 then connectedUserId c else userId c) connections2);
          mutualIds = filter (\<lambda>i. i \<in> set connectedIds2) connectedIds1
      in if length mutualIds = 0 then []
         else filter (\<lambda>u. user_id u \<in> set mutualIds) (users s))"

section \<open>Likes\<close>

text \<open>
  \<open>createLike\<close> returns the new row, or an object with an \<open>error\<close> text and, for a
  uniqueness violation, \<open>alreadyExists\<close>. The insert can violate the primary key, the
  unique index on (post, user), or a foreign key to \<open>posts\<close> or \<open>users\<close>.
\<close>

datatype like_result = Created like | Failure string bool

definition createLike :: "db \<Rightarrow> int \<Rightarrow> int \<Rightarrow> like_result \<times> db" where
  "createLike s postId uid =
     (let newId = likes_seq s;
          s1 = s\<lparr>likes_seq := newId + 1\<rparr>;
          row = \<lparr>like_id = newId, like_postId = postId, like_userId = uid\<rparr>
      in if newId \<in> like_id ` set (likes s)
            \<or> (postId, uid) \<in> (\<lambda>l. (like_postId l, like_userId l)) ` set (likes s)
         then (Failure ''User has already liked this post.'' True, s1)
         else if \<not> (post_exists s postId \<and> user_exists s uid)
         then (Failure ''Failed to create like.'' False, s1)
         else (Created row, s1\<lparr>likes := likes s @ [row]\<rparr>))"

definition deleteLike :: "db \<Rightarrow> int \<Rightarrow> int \<Rightarrow> bool \<times> db" where
  "deleteLike s postId uid =
     (let result = filter (\<lambda>l. like_postId l = postId \<and> like_userId l = uid) (likes s)
      in (length result > 0,
          s\<lparr>likes := filter (\<lambda>l. \<not> (like_postId l = postId \<and> like_userId l = uid)) (likes s)\<rparr>))"

definition getLikesForPost :: "db \<Rightarrow> int \<Rightarrow> like list" where
  "getLikesForPost s postId = filter (\<lambda>l. like_postId l = postId) (likes s)"

definition like_handler :: "db \<Rightarrow> auth_user option \<Rightarrow> int option \<Rightarrow> response \<times> db" where
  "like_handler s reqUser postIdParam =
     (case reqUser of
        None \<Rightarrow> (Response 401 (Message ''User not authenticated''), s)
      | Some u \<Rightarrow>
          (case postIdParam of
             None \<Rightarrow> (Response 400 (Message ''Invalid post ID''), s)
           | Some postId \<Rightarrow>
               (case createLike s postId (au_id u) of
                  (Failure e True, s1) \<Rightarrow>
                    (case deleteLike s1 postId (au_id u) of
                       (ok, s2) \<Rightarrow>
                         (Response 200 (LikeJson ''Post unliked successfully.'' False None
                            (length (getLikesForPost s2 postId))), s2))
                | (Failure e False, s1) \<Rightarrow> (Response 500 (Message e), s1)
                | (Created l, s1) \<Rightarrow>
                    (Response 200 (LikeJson ''Post liked successfully.'' True (Some l)
                       (length (getLikesForPost s1 postId))), s1))))"

text \<open>Whether the response reports \<open>liked\<close> with the given value.\<close>

fun reports_liked :: "response \<Rightarrow> bool \<Rightarrow> bool" where
  "reports_liked (Response n (LikeJson m liked l k)) b = (n = 200 \<and> liked = b)"
| "reports_liked r b = False"

definition has_like :: "db \<Rightarrow> int \<Rightarrow> int \<Rightarrow> bool" where
  "has_like s postId uid = ((postId, uid) \<in> (\<lambda>l. (like_postId l, like_userId l)) ` set (likes s))"

section \<open>Saved posts\<close>

text \<open>
  \<open>savePost\<close> returns nothing; the value here is the database error the insert throws,
  if any. The insert checks the primary key and the foreign keys to \<open>posts\<close> and
  \<open>users\<close>; the delete removes the rows with the id of the row found.
\<close>

definition insert_savedPost :: "db \<Rightarrow> int \<Rightarrow> int \<Rightarrow> pg_error option \<times> db" where
  "insert_savedPost s postId uid =
     (let newId = savedPosts_seq s;
          s1 = s\<lparr>savedPosts_seq := newId + 1\<rparr>;
          row = \<lparr>sp_id = newId, sp_postId = postId, sp_userId = uid\<rparr>
      in if newId \<in> sp_id ` set (savedPosts s) then (Some UniqueViolation, s1)
         else if \<not> (post_exists s postId \<and> user_exists s uid) then (Some ForeignKeyViolation, s1)
         else (None, s1\<lparr>savedPosts := savedPosts s @ [row]\<rparr>))"

definition savePost :: "db \<Rightarrow> int \<Rightarrow> int \<Rightarrow> bool \<Rightarrow> pg_error option \<times> db" where
  "savePost s currentUserId postId isSaved =
     (let existingSavedPost =
            find (\<lambda>r. sp_postId r = postId \<and> sp_userId r = currentUserId) (savedPosts s)
      in if isSaved then
           (case existingSavedPost of
              None \<Rightarrow> insert_savedPost s postId currentUserId
            | Some e \<Rightarrow> (None, s))
         else
           (case existingSavedPost of
              Some e \<Rightarrow> (None, s\<lparr>savedPosts := filter (\<lambda>r. sp_id r \<noteq> sp_id e) (savedPosts s)\<rparr>)
            | None \<Rightarrow> (None, s)))"

section \<open>Document sharing\<close>

text \<open>
  \<open>shareDocument\<close>: the rows to insert are numbered by the sequence in the order of
  the values; the insert is one statement, so it stores all the rows or none. The
  condition \<open>userId in userIds\<close> is read as membership in the list.
\<close>

fun number_rows :: "int \<Rightarrow> (int \<times> int) list \<Rightarrow> documentSharing list" where
  "number_rows i [] = []"
| "number_rows i ((d, u) # vs) =
     \<lparr>ds_id = i, ds_documentId = d, ds_userId = u\<rparr> # number_rows (i + 1) vs"

definition insert_documentSharings :: "db \<Rightarrow> (int \<times> int) list \<Rightarrow> pg_error option \<times> db" where
  "insert_documentSharings s vals =
     (let rows = number_rows (documentSharings_seq s) vals;
          s1 = s\<lparr>documentSharings_seq := documentSharings_seq s + int (length vals)\<rparr>
      in if \<not> distinct (map ds_id (documentSharings s @ rows)) then (Some UniqueViolation, s1)
         else if filter (\<lambda>(d, u). \<not> (document_exists s d \<and> user_exists s u)) vals \<noteq> []
         then (Some ForeignKeyViolation, s1)
         else (None, s1\<lparr>documentSharings := documentSharings s @ rows\<rparr>))"

definition shareDocument :: "db \<Rightarrow> int \<Rightarrow> int list \<Rightarrow> pg_error option \<times> db" where
  "shareDocument s documentId userIds =
     (let existingShares =
            filter (\<lambda>r. ds_documentId r = documentId \<and> ds_userId r \<in> set userIds)
              (documentSharings s);
          alreadySharedUserIds = new_Set (map ds_userId existingShares);
          newShares =
            map (\<lambda>uid. (documentId, uid))
              (filter (\<lambda>uid. uid \<notin> set alreadySharedUserIds) userIds)
      in if length newShares > 0 then insert_documentSharings s newShares else (None, s))"

section \<open>Authentication and authorisation middleware (server/routes.ts)\<close>

text \<open>
  A request carries the \<open>Authorization\<close> header, if any, and \<open>req.user\<close>. A
  middleware either sends a response or calls \<open>next\<close> with the request. The token
  library's \<open>jwt.verify\<close> with the server's secret is a parameter: it gets the token
  (undefined when the header has no second word) and yields the error or the payload.
\<close>

record request =
  authorization :: "string option"
  req_user :: "auth_user option"

datatype mw_result = Sent response | Next request

datatype jwt_error = TokenExpiredError | JsonWebTokenError

text \<open>JavaScript's \<open>split\<close> on a separator character, and an array read by index.\<close>

fun split_on :: "char \<Rightarrow> string \<Rightarrow> string list" where
  "split_on d [] = [[]]"
| "split_on d (c # cs) =
     (if c = d then [] # split_on d cs
      else (case split_on d cs of
              [] \<Rightarrow> [[c]]
            | w # ws \<Rightarrow> (c # w) # ws))"

fun at_index :: "'a list \<Rightarrow> nat \<Rightarrow> 'a option" where
  "at_index [] n = None"
| "at_index (x # xs) 0 = Some x"
| "at_index (x # xs) (Suc n) = at_index xs n"

definition authenticateJWT ::
  "(string option \<Rightarrow> jwt_error + auth_user) \<Rightarrow> request \<Rightarrow> mw_result" where
  "authenticateJWT verify req =
     (case authorization req of
        None \<Rightarrow> Sent (Response 401 StatusText)
      | Some authHeader \<Rightarrow>
          if authHeader = [] then Sent (Response 401 StatusText)
          else (let token = at_index (split_on (CHR '' '') authHeader) 1
                in case verify token of
                     Inl err \<Rightarrow> Sent (Response 403 StatusText)
                   | Inr u \<Rightarrow> Next (req\<lparr>req_user := Some u\<rparr>)))"

definition authorizeRoles :: "string list \<Rightarrow> request \<Rightarrow> mw_result" where
  "authorizeRoles allowedRoles req =
     (case req_user req of
        None \<Rightarrow> Sent (Response 401 StatusText)
      | Some u \<Rightarrow>
          if au_role u = [] then Sent (Response 401 StatusText)
          else if au_role u \<notin> set allowedRoles then Sent (Response 403 StatusText)
          else Next req)"

section \<open>Invariants and notation for the statements\<close>

text \<open>The primary key of \<open>connections\<close>: no two rows share an id.\<close>

definition pk_connections :: "db \<Rightarrow> bool" where
  "pk_connections s = distinct (map conn_id (connections s))"

definition no_self_rows :: "db \<Rightarrow> bool" where
  "no_self_rows s = (filter (\<lambda>c. userId c = connectedUserId c) (connections s) = [])"

text \<open>
  The specification's counterpart-id set of a user: over the accepted rows that have the
  user at either end, the user at the other end.
\<close>

definition counterpart_ids :: "db \<Rightarrow> int \<Rightarrow> int set" where
  "counterpart_ids s u =
     (\<lambda>c. if userId c = u then connectedUserId c else userId c) `
       {c \<in> set (connections s). (userId c = u \<or> connectedUserId c = u) \<and> status c = Accepted}"

text \<open>
  The users that appear at either end of a connection row involving the given user,
  whatever the row's status.
\<close>

definition endpoint_ids :: "db \<Rightarrow> int \<Rightarrow> int set" where
  "endpoint_ids s u =
     (userId ` {c \<in> set (connections s). userId c = u \<or> connectedUserId c = u})
     \<union> (connectedUserId ` {c \<in> set (connections s). userId c = u \<or> connectedUserId c = u})"

text \<open>The sequence of a table is ahead of every id stored in it.\<close>

definition likes_wf :: "db \<Rightarrow> bool" where
  "likes_wf s = (filter (\<lambda>l. likes_seq s \<le> like_id l) (likes s) = [])"

text \<open>
  The saved-posts table as \<open>savePost\<close> leaves it: at most one row for a (post, user)
  pair, no two rows with the same id, and the sequence ahead of every id.
\<close>

definition savedPosts_wf :: "db \<Rightarrow> bool" where
  "savedPosts_wf s =
     (distinct (map (\<lambda>r. (sp_postId r, sp_userId r)) (savedPosts s))
      \<and> distinct (map sp_id (savedPosts s))
      \<and> filter (\<lambda>r. savedPosts_seq s \<le> sp_id r) (savedPosts s) = [])"

text \<open>
  The sharing table with at most one row for a (document, user) pair, no two rows with the
  same id, and the sequence ahead of every id.
\<close>

definition documentSharings_wf :: "db \<Rightarrow> bool" where
  "documentSharings_wf s =
     (distinct (map (\<lambda>r. (ds_documentId r, ds_userId r)) (documentSharings s))
      \<and> distinct (map ds_id (documentSharings s))
      \<and> filter (\<lambda>r. documentSharings_seq s \<le> ds_id r) (documentSharings s) = [])"

section \<open>Example states\<close>

definition alice :: auth_user where
  "alice = \<lparr>au_id = 1, au_username = ''alice'', au_role = ''Doctor''\<rparr>"

definition bob :: auth_user where
  "bob = \<lparr>au_id = 2, au_username = ''bob'', au_role = ''Student''\<rparr>"

definition carol :: auth_user where
  "carol = \<lparr>au_id = 3, au_username = ''carol'', au_role = ''Patient''\<rparr>"

text \<open>Three users, one post and one document of the first user, and nothing else yet.\<close>

definition db0 :: db where
  "db0 = \<lparr>users = [\<lparr>user_id = 1, username = ''alice'', role = ''Doctor''\<rparr>,
                     \<lparr>user_id = 2, username = ''bob'', role = ''Student''\<rparr>,
                     \<lparr>user_id = 3, username = ''carol'', role = ''Patient''\<rparr>],
           posts = [\<lparr>post_id = 1, authorId = 1\<rparr>],
           documents = [\<lparr>document_id = 1, ownerId = 1\<rparr>],
           connections = [], connections_seq = 1,
           likes = [], likes_seq = 1,
           savedPosts = [], savedPosts_seq = 1,
           documentSharings = [], documentSharings_seq = 1\<rparr>"

text \<open>A request from user 1 to user 2, still pending, and the same request once accepted.\<close>

definition row_pending :: connection where
  "row_pending = \<lparr>conn_id = 1, userId = 1, connectedUserId = 2, status = Pending\<rparr>"

definition row_accepted :: connection where
  "row_accepted = \<lparr>conn_id = 1, userId = 1, connectedUserId = 2, status = Accepted\<rparr>"

definition db_pending :: db where
  "db_pending = db0\<lparr>connections := [row_pending], connections_seq := 2\<rparr>"

definition db_accepted :: db where
  "db_accepted = db0\<lparr>connections := [row_accepted], connections_seq := 2\<rparr>"

definition row_rejected :: connection where
  "row_rejected = \<lparr>conn_id = 1, userId = 1, connectedUserId = 2, status = Rejected\<rparr>"

definition db_rejected :: db where
  "db_rejected = db0\<lparr>connections := [row_rejected], connections_seq := 2\<rparr>"

text \<open>Users 1 and 2 are both connected to user 3: one row in each direction.\<close>

definition db_mutual :: db where
  "db_mutual = db0\<lparr>connections :=
                      [\<lparr>conn_id = 1, userId = 1, connectedUserId = 3, status = Accepted\<rparr>,
                       \<lparr>conn_id = 2, userId = 3, connectedUserId = 2, status = Accepted\<rparr>],
                    connections_seq := 3\<rparr>"

text \<open>A verifier that knows one good token and one expired token.\<close>

definition demo_verify :: "string option \<Rightarrow> jwt_error + auth_user" where
  "demo_verify t =
     (if t = Some ''good'' then Inr alice
      else if t = Some ''expired'' then Inl TokenExpiredError
      else Inl JsonWebTokenError)"

section \<open>Properties\<close>

lemmas ex_defs = db_pending_def db_accepted_def db_rejected_def db_mutual_def db0_def
  row_pending_def row_accepted_def row_rejected_def alice_def bob_def carol_def

subsection \<open>Rows and ids\<close>

lemma find_by_id:
  "distinct (map conn_id rows) \<Longrightarrow> c \<in> set rows \<Longrightarrow> find (\<lambda>r. conn_id r = conn_id c) rows = Some c"
  by (induction rows) auto

lemma getConnectionById_row:
  "pk_connections s \<Longrightarrow> c \<in> set (connections s) \<Longrightarrow> getConnectionById s (conn_id c) = Some c"
  by (simp add: getConnectionById_def pk_connections_def find_by_id)

lemma same_id_same_row:
  "distinct (map conn_id rows) \<Longrightarrow> c \<in> set rows \<Longrightarrow> r \<in> set rows \<Longrightarrow>
   conn_id r = conn_id c \<longleftrightarrow> r = c"
  by (auto simp: distinct_map dest: inj_onD)

lemma update_by_id_row:
  assumes "distinct (map conn_id rows)" "c \<in> set rows"
  shows "map (\<lambda>r. if conn_id r = conn_id c then r\<lparr>status := st\<rparr> else r) rows
       = map (\<lambda>r. if r = c then c\<lparr>status := st\<rparr> else r) rows"
  using assms by (intro map_cong refl) (auto simp: same_id_same_row)

lemma find_updated:
  "find (\<lambda>r. conn_id r = cid) rows = Some c \<Longrightarrow>
   find (\<lambda>r. conn_id r = cid) (map (\<lambda>r. if conn_id r = cid then r\<lparr>status := st\<rparr> else r) rows)
     = Some (c\<lparr>status := st\<rparr>)"
  by (induction rows) auto

lemma updateConnectionStatus_row:
  assumes "pk_connections s" "c \<in> set (connections s)"
  shows "updateConnectionStatus s (conn_id c) st =
           (Some (c\<lparr>status := st\<rparr>),
            s\<lparr>connections := map (\<lambda>r. if r = c then c\<lparr>status := st\<rparr> else r) (connections s)\<rparr>)"
proof -
  have f: "find (\<lambda>r. conn_id r = conn_id c) (connections s) = Some c"
    using assms by (simp add: pk_connections_def find_by_id)
  have m: "map (\<lambda>r. if conn_id r = conn_id c then r\<lparr>status := st\<rparr> else r) (connections s)
         = map (\<lambda>r. if r = c then c\<lparr>status := st\<rparr> else r) (connections s)"
    using assms by (simp add: pk_connections_def update_by_id_row)
  show ?thesis
    unfolding updateConnectionStatus_def Let_def find_updated [OF f]
    by (simp only: m)
qed

lemma find_map_keeps_id:
  assumes "\<And>r. conn_id (f r) = conn_id r"
  shows "distinct (map conn_id rows) \<Longrightarrow> c \<in> set rows \<Longrightarrow>
         find (\<lambda>r. conn_id r = conn_id c) (map f rows) = Some (f c)"
  using assms by (induction rows) (auto simp: image_iff)

lemma updateConnectionStatus_lookup:
  assumes "pk_connections s" "c \<in> set (connections s)"
  shows "getConnectionById (snd (updateConnectionStatus s cid st)) (conn_id c)
           = Some (if conn_id c = cid then c\<lparr>status := st\<rparr> else c)"
  using assms
  by (simp add: getConnectionById_def updateConnectionStatus_def pk_connections_def Let_def
        find_map_keeps_id [where f = "\<lambda>r. if conn_id r = cid then r\<lparr>status := st\<rparr> else r"])

lemma conn_id_after_update:
  "conn_id \<circ> (\<lambda>c. if conn_id c = cid then c\<lparr>status := st\<rparr> else c) = conn_id"
  by (auto simp: fun_eq_iff)

lemma updateConnectionStatus_pk:
  "pk_connections s \<Longrightarrow> pk_connections (snd (updateConnectionStatus s cid st))"
  by (simp add: pk_connections_def updateConnectionStatus_def Let_def conn_id_after_update)

lemma accept_handler_cases:
  "snd (accept_handler s ru cp) = s
   \<or> (\<exists>cid c0. getConnectionById s cid = Some c0 \<and> status c0 = Pending
         \<and> snd (accept_handler s ru cp) = snd (updateConnectionStatus s cid Accepted))"
  by (auto simp: accept_handler_def split_beta split: option.splits)

lemma reject_handler_cases:
  "snd (reject_handler s ru cp) = s
   \<or> (\<exists>cid c0. getConnectionById s cid = Some c0 \<and> status c0 = Pending
         \<and> snd (reject_handler s ru cp) = snd (updateConnectionStatus s cid Rejected))"
  by (auto simp: reject_handler_def split_beta split: option.splits)

lemma connect_handler_cases:
  "connections (snd (connect_handler s ru bp)) = connections s
   \<or> (\<exists>u target. ru = Some u \<and> bp = Some target
         \<and> connections_seq s \<notin> conn_id ` set (connections s)
         \<and> connections (snd (connect_handler s ru bp)) =
             connections s @ [\<lparr>conn_id = connections_seq s, userId = au_id u,
                                connectedUserId = target, status = Pending\<rparr>])"
  by (auto simp: connect_handler_def createConnection_def Let_def split: option.splits)

lemma find_append_old:
  "P c \<Longrightarrow> c \<in> set rows \<Longrightarrow> find P (rows @ ys) = find P rows"
  by (induction rows) auto

subsection \<open>Accept\<close>

text \<open>
  Claim C1. For a row \<open>c\<close> of the connection table and an acting user \<open>u\<close>, Accept
  answers 200 exactly when \<open>u\<close> is the row's recipient and the row is pending; it then
  returns the row with status accepted and stores it in place of \<open>c\<close>, every other row
  and table unchanged. When \<open>u\<close> is not the recipient the answer is 403, and when
  \<open>u\<close> is the recipient but the row is not pending it is 400; in both cases the database
  is unchanged. The recipient check comes first, so a stranger gets 403 whatever the status.
\<close>

theorem accept_iff_recipient_and_pending:
  assumes pk: "pk_connections s" and row: "c \<in> set (connections s)"
  shows "(status_code (fst (accept_handler s (Some u) (Some (conn_id c)))) = 200
            \<longleftrightarrow> connectedUserId c = au_id u \<and> status c = Pending)
       \<and> (connectedUserId c = au_id u \<and> status c = Pending \<longrightarrow>
            accept_handler s (Some u) (Some (conn_id c)) =
              (Response 200 (ConnectionJson (Some (c\<lparr>status := Accepted\<rparr>))),
               s\<lparr>connections :=
                    map (\<lambda>r. if r = c then c\<lparr>status := Accepted\<rparr> else r) (connections s)\<rparr>))
       \<and> (connectedUserId c \<noteq> au_id u \<longrightarrow>
            status_code (fst (accept_handler s (Some u) (Some (conn_id c)))) = 403
            \<and> snd (accept_handler s (Some u) (Some (conn_id c))) = s)
       \<and> (connectedUserId c = au_id u \<and> status c \<noteq> Pending \<longrightarrow>
            status_code (fst (accept_handler s (Some u) (Some (conn_id c)))) = 400
            \<and> snd (accept_handler s (Some u) (Some (conn_id c))) = s)"
proof -
  have g: "getConnectionById s (conn_id c) = Some c"
    using pk row by (rule getConnectionById_row)
  show ?thesis
    by (simp add: accept_handler_def g updateConnectionStatus_row [OF pk row])
qed

text \<open>
  C1 at concrete requests: the recipient accepts the pending request (200), the initiator
  tries to (403), and the recipient accepts again after it was accepted (400).
\<close>

theorem accept_iff_recipient_and_pending_witness:
  "pk_connections db_pending \<and> row_pending \<in> set (connections db_pending)
   \<and> accept_handler db_pending (Some bob) (Some 1) =
       (Response 200 (ConnectionJson (Some row_accepted)), db_accepted)
   \<and> status_code (fst (accept_handler db_pending (Some alice) (Some 1))) = 403
   \<and> snd (accept_handler db_pending (Some alice) (Some 1)) = db_pending
   \<and> status_code (fst (accept_handler db_accepted (Some bob) (Some 1))) = 400
   \<and> snd (accept_handler db_accepted (Some bob) (Some 1)) = db_accepted"
proof -
  have p: "pk_connections db_pending" "row_pending \<in> set (connections db_pending)"
    by (simp_all add: pk_connections_def ex_defs)
  have a: "pk_connections db_accepted" "row_accepted \<in> set (connections db_accepted)"
    by (simp_all add: pk_connections_def ex_defs)
  show ?thesis
    using p accept_iff_recipient_and_pending [OF p, of bob]
      accept_iff_recipient_and_pending [OF p, of alice]
      accept_iff_recipient_and_pending [OF a, of bob]
    by (simp add: ex_defs)
qed

subsection \<open>Reject\<close>

text \<open>
  Claim C2 as written lets the recipient reject a row in any status. The handler checks the
  status after the permission: the recipient of an accepted row gets 400 and the row stays
  accepted.
\<close>

theorem reject_by_recipient_counterexample:
  "pk_connections db_accepted \<and> row_accepted \<in> set (connections db_accepted)
   \<and> connectedUserId row_accepted = au_id bob
   \<and> reject_handler db_accepted (Some bob) (Some (conn_id row_accepted)) =
       (Response 400 (Message ''Connection is already accepted.''), db_accepted)"
  by (simp add: pk_connections_def reject_handler_def getConnectionById_def ex_defs)

text \<open>
  Claim C2, amended. Reject answers 200 exactly when the row is pending and the acting user
  is its recipient or its initiator; it then stores the row with status rejected in place
  of \<open>c\<close>. A user who is not the recipient, and is not the initiator of a pending row,
  gets 403; the recipient of a row that is no longer pending gets 400; the database is
  unchanged in both cases.
\<close>

theorem reject_iff_pending_and_party:
  assumes pk: "pk_connections s" and row: "c \<in> set (connections s)"
  shows "(status_code (fst (reject_handler s (Some u) (Some (conn_id c)))) = 200
            \<longleftrightarrow> status c = Pending \<and> (connectedUserId c = au_id u \<or> userId c = au_id u))
       \<and> (status c = Pending \<and> (connectedUserId c = au_id u \<or> userId c = au_id u) \<longrightarrow>
            reject_handler s (Some u) (Some (conn_id c)) =
              (Response 200 (ConnectionJson (Some (c\<lparr>status := Rejected\<rparr>))),
               s\<lparr>connections :=
                    map (\<lambda>r. if r = c then c\<lparr>status := Rejected\<rparr> else r) (connections s)\<rparr>))
       \<and> (connectedUserId c \<noteq> au_id u \<and> \<not> (userId c = au_id u \<and> status c = Pending) \<longrightarrow>
            status_code (fst (reject_handler s (Some u) (Some (conn_id c)))) = 403
            \<and> snd (reject_handler s (Some u) (Some (conn_id c))) = s)
       \<and> (connectedUserId c = au_id u \<and> status c \<noteq> Pending \<longrightarrow>
            status_code (fst (reject_handler s (Some u) (Some (conn_id c)))) = 400
            \<and> snd (reject_handler s (Some u) (Some (conn_id c))) = s)"
proof -
  have g: "getConnectionById s (conn_id c) = Some c"
    using pk row by (rule getConnectionById_row)
  show ?thesis
    by (auto simp add: reject_handler_def g updateConnectionStatus_row [OF pk row])
qed

text \<open>
  C2 (amended) at concrete requests: recipient and initiator reject the pending request,
  a third user may not, and nobody rejects the accepted one.
\<close>

theorem reject_iff_pending_and_party_witness:
  "pk_connections db_pending \<and> row_pending \<in> set (connections db_pending)
   \<and> status_code (fst (reject_handler db_pending (Some bob) (Some 1))) = 200
   \<and> status_code (fst (reject_handler db_pending (Some alice) (Some 1))) = 200
   \<and> status_code (fst (reject_handler db_pending (Some carol) (Some 1))) = 403
   \<and> snd (reject_handler db_pending (Some carol) (Some 1)) = db_pending
   \<and> status_code (fst (reject_handler db_accepted (Some alice) (Some 1))) = 403
   \<and> status_code (fst (reject_handler db_accepted (Some bob) (Some 1))) = 400
   \<and> snd (reject_handler db_accepted (Some bob) (Some 1)) = db_accepted"
proof -
  have p: "pk_connections db_pending" "row_pending \<in> set (connections db_pending)"
    by (simp_all add: pk_connections_def ex_defs)
  have a: "pk_connections db_accepted" "row_accepted \<in> set (connections db_accepted)"
    by (simp_all add: pk_connections_def ex_defs)
  show ?thesis
    using p reject_iff_pending_and_party [OF p, of bob]
      reject_iff_pending_and_party [OF p, of alice]
      reject_iff_pending_and_party [OF p, of carol]
      reject_iff_pending_and_party [OF a, of alice]
      reject_iff_pending_and_party [OF a, of bob]
    by (simp add: ex_defs)
qed

subsection \<open>Status transitions\<close>

lemma step_pk: "pk_connections s \<Longrightarrow> pk_connections (step s x)"
proof (cases x)
  case (Request ru bp)
  assume "pk_connections s"
  then show ?thesis
    using connect_handler_cases [of s ru bp] Request
    by (auto simp: pk_connections_def)
next
  case (Accept ru cp)
  assume "pk_connections s"
  then show ?thesis
    using accept_handler_cases [of s ru cp] Accept
    by (auto simp: updateConnectionStatus_pk)
next
  case (Reject ru cp)
  assume "pk_connections s"
  then show ?thesis
    using reject_handler_cases [of s ru cp] Reject
    by (auto simp: updateConnectionStatus_pk)
qed

lemma run_pk: "pk_connections s \<Longrightarrow> pk_connections (run s xs)"
  by (induction xs arbitrary: s) (auto simp: step_pk)

lemma step_row:
  assumes pk: "pk_connections s" and row: "c \<in> set (connections s)"
  shows "\<exists>c'. getConnectionById (step s x) (conn_id c) = Some c'
            \<and> userId c' = userId c \<and> connectedUserId c' = connectedUserId c
            \<and> (status c' = status c
                 \<or> (status c = Pending \<and> (status c' = Accepted \<or> status c' = Rejected)))"
proof -
  have same: "getConnectionById s (conn_id c) = Some c"
    using pk row by (rule getConnectionById_row)
  show ?thesis
  proof (cases x)
    case (Request ru bp)
    have "getConnectionById (step s x) (conn_id c) = Some c"
      using connect_handler_cases [of s ru bp] Request same row
      by (auto simp: getConnectionById_def find_append_old [where c = c])
    then show ?thesis by simp
  next
    case (Accept ru cp)
    from accept_handler_cases [of s ru cp] show ?thesis
    proof
      assume "snd (accept_handler s ru cp) = s"
      then show ?thesis using Accept same by simp
    next
      assume "\<exists>cid c0. getConnectionById s cid = Some c0 \<and> status c0 = Pending
         \<and> snd (accept_handler s ru cp) = snd (updateConnectionStatus s cid Accepted)"
      then obtain cid c0 where g: "getConnectionById s cid = Some c0" and p: "status c0 = Pending"
        and e: "snd (accept_handler s ru cp) = snd (updateConnectionStatus s cid Accepted)"
        by blast
      have "conn_id c = cid \<Longrightarrow> c0 = c" using g same by simp
      then show ?thesis
        using Accept e p updateConnectionStatus_lookup [OF pk row, of cid Accepted]
        by (cases "conn_id c = cid") auto
    qed
  next
    case (Reject ru cp)
    from reject_handler_cases [of s ru cp] show ?thesis
    proof
      assume "snd (reject_handler s ru cp) = s"
      then show ?thesis using Reject same by simp
    next
      assume "\<exists>cid c0. getConnectionById s cid = Some c0 \<and> status c0 = Pending
         \<and> snd (reject_handler s ru cp) = snd (updateConnectionStatus s cid Rejected)"
      then obtain cid c0 where g: "getConnectionById s cid = Some c0" and p: "status c0 = Pending"
        and e: "snd (reject_handler s ru cp) = snd (updateConnectionStatus s cid Rejected)"
        by blast
      have "conn_id c = cid \<Longrightarrow> c0 = c" using g same by simp
      then show ?thesis
        using Reject e p updateConnectionStatus_lookup [OF pk row, of cid Rejected]
        by (cases "conn_id c = cid") auto
    qed
  qed
qed

text \<open>
  Claim C3. Start from any database whose connection ids are distinct, run any sequence of
  requests, and then one more request \<open>x\<close>. Every row \<open>c\<close> present before \<open>x\<close> is
  still there after it, under the same id and with the same endpoints, and its status is
  either unchanged or went from pending to accepted or from pending to rejected. So a row
  never leaves accepted or rejected and never returns to pending.
\<close>

theorem status_only_leaves_pending:
  assumes "pk_connections s" and "c \<in> set (connections (run s xs))"
  shows "\<exists>c'. getConnectionById (step (run s xs) x) (conn_id c) = Some c'
            \<and> userId c' = userId c \<and> connectedUserId c' = connectedUserId c
            \<and> (status c' = status c
                 \<or> (status c = Pending \<and> (status c' = Accepted \<or> status c' = Rejected)))"
  using assms by (intro step_row run_pk)

text \<open>
  C3 at a concrete run: a request, its acceptance, and a rejection that comes too late.
\<close>

theorem status_only_leaves_pending_witness:
  "pk_connections db0
   \<and> row_pending \<in> set (connections (run db0 [Request (Some alice) (Some 2)]))
   \<and> getConnectionById
        (step (run db0 [Request (Some alice) (Some 2)]) (Accept (Some bob) (Some 1))) 1
       = Some row_accepted
   \<and> getConnectionById
        (step (run db0 [Request (Some alice) (Some 2), Accept (Some bob) (Some 1)])
           (Reject (Some bob) (Some 1))) 1
       = Some row_accepted"
proof -
  have p: "pk_connections db0" by (simp add: pk_connections_def ex_defs)
  have r1: "run db0 [Request (Some alice) (Some 2)] = db_pending"
    by (simp add: connect_handler_def createConnection_def user_exists_def Let_def ex_defs)
  have r2: "run db0 [Request (Some alice) (Some 2), Accept (Some bob) (Some 1)] = db_accepted"
    by (simp add: connect_handler_def createConnection_def user_exists_def Let_def
          accept_handler_def getConnectionById_def updateConnectionStatus_def ex_defs)
  have m1: "row_pending \<in> set (connections (run db0 [Request (Some alice) (Some 2)]))"
    unfolding r1 by (simp add: ex_defs)
  have m2: "row_accepted \<in> set (connections (run db0 [Request (Some alice) (Some 2), Accept (Some bob) (Some 1)]))"
    unfolding r2 by (simp add: ex_defs)
  show ?thesis
    using p m1 status_only_leaves_pending [OF p m1, of "Accept (Some bob) (Some 1)"]
      status_only_leaves_pending [OF p m2, of "Reject (Some bob) (Some 1)"]
    unfolding r1 r2
    by (simp add: accept_handler_def reject_handler_def getConnectionById_def
          updateConnectionStatus_def Let_def ex_defs)
qed

subsection \<open>Self-connections\<close>

lemma no_self_rows_iff:
  "no_self_rows s \<longleftrightarrow> (\<forall>c \<in> set (connections s). userId c \<noteq> connectedUserId c)"
  by (simp add: no_self_rows_def filter_empty_conv)

lemma updateConnectionStatus_no_self:
  "no_self_rows s \<Longrightarrow> no_self_rows (snd (updateConnectionStatus s cid st))"
  by (auto simp: no_self_rows_iff updateConnectionStatus_def Let_def)

lemma step_no_self:
  assumes "no_self_rows s" "\<not> self_request x"
  shows "no_self_rows (step s x)"
proof (cases x)
  case (Request ru bp)
  then show ?thesis
    using connect_handler_cases [of s ru bp] assms
    by (auto simp: no_self_rows_iff)
next
  case (Accept ru cp)
  then show ?thesis
    using accept_handler_cases [of s ru cp] assms
    by (auto simp: updateConnectionStatus_no_self)
next
  case (Reject ru cp)
  then show ?thesis
    using reject_handler_cases [of s ru cp] assms
    by (auto simp: updateConnectionStatus_no_self)
qed

text \<open>
  Claim C6 as written says that no accepted self-connection can be produced. Nothing in
  the connect handler or in \<open>createConnection\<close> compares the two users: user 1 asks to
  connect to user 1 and, being the recipient, accepts.
\<close>

theorem accepted_self_connection_counterexample:
  "connections (run db0 [Request (Some alice) (Some 1), Accept (Some alice) (Some 1)])
     = [\<lparr>conn_id = 1, userId = 1, connectedUserId = 1, status = Accepted\<rparr>]"
  by (simp add: connect_handler_def createConnection_def user_exists_def Let_def
        accept_handler_def getConnectionById_def updateConnectionStatus_def ex_defs)

text \<open>
  Claim C6, amended. Accept and Reject never change the endpoints of a row, so a row from
  a user to that same user exists only if it was requested: from a database without such
  rows, a sequence of requests in which no user asks to connect to themself leads to a
  database without such rows, in particular without an accepted one.
\<close>

theorem no_accepted_self_connection_without_self_request:
  assumes "no_self_rows s" and "list_all (\<lambda>x. \<not> self_request x) xs"
  shows "no_self_rows (run s xs)
       \<and> filter (\<lambda>c. status c = Accepted \<and> userId c = connectedUserId c)
           (connections (run s xs)) = []"
proof -
  have "no_self_rows (run s xs)"
    using assms by (induction xs arbitrary: s) (auto simp: step_no_self)
  then show ?thesis
    by (auto simp: no_self_rows_iff filter_empty_conv)
qed

text \<open>
  C6 (amended) at a concrete run: user 1 asks user 2, who accepts.
\<close>

theorem no_accepted_self_connection_without_self_request_witness:
  "no_self_rows db0
   \<and> list_all (\<lambda>x. \<not> self_request x) [Request (Some alice) (Some 2), Accept (Some bob) (Some 1)]
   \<and> no_self_rows (run db0 [Request (Some alice) (Some 2), Accept (Some bob) (Some 1)])
   \<and> connections (run db0 [Request (Some alice) (Some 2), Accept (Some bob) (Some 1)])
       = [row_accepted]"
proof -
  have n: "no_self_rows db0" by (simp add: no_self_rows_def ex_defs)
  have l: "list_all (\<lambda>x. \<not> self_request x) [Request (Some alice) (Some 2), Accept (Some bob) (Some 1)]"
    by (simp add: ex_defs)
  have r2: "run db0 [Request (Some alice) (Some 2), Accept (Some bob) (Some 1)] = db_accepted"
    by (simp add: connect_handler_def createConnection_def user_exists_def Let_def
          accept_handler_def getConnectionById_def updateConnectionStatus_def ex_defs)
  show ?thesis
    using n l no_accepted_self_connection_without_self_request [OF n l]
    unfolding r2
    by (simp add: ex_defs)
qed

subsection \<open>Mutual connections\<close>

lemma set_new_Set: "set (new_Set xs) = set xs"
  by (simp add: new_Set_def)

lemma connected_ids:
  "set (new_Set (map (\<lambda>c. if userId c = u then connectedUserId c else userId c)
          (filter (\<lambda>c. (userId c = u \<or> connectedUserId c = u) \<and> status c = Accepted)
             (connections s))))
     = counterpart_ids s u"
  by (simp add: set_new_Set counterpart_ids_def)

lemma mutual_ids:
  "set (getMutualConnections s a b)
     = {x \<in> set (users s). user_id x \<in> counterpart_ids s a \<and> user_id x \<in> counterpart_ids s b}"
proof -
  define ids1 where "ids1 = new_Set (map (\<lambda>c. if userId c = a then connectedUserId c else userId c)
          (filter (\<lambda>c. (userId c = a \<or> connectedUserId c = a) \<and> status c = Accepted)
             (connections s)))"
  define ids2 where "ids2 = new_Set (map (\<lambda>c. if userId c = b then connectedUserId c else userId c)
          (filter (\<lambda>c. (userId c = b \<or> connectedUserId c = b) \<and> status c = Accepted)
             (connections s)))"
  define mutualIds where "mutualIds = filter (\<lambda>i. i \<in> set ids2) ids1"
  have g: "getMutualConnections s a b =
             (if length mutualIds = 0 then [] else filter (\<lambda>x. user_id x \<in> set mutualIds) (users s))"
    by (simp add: getMutualConnections_def Let_def ids1_def ids2_def mutualIds_def)
  have "getMutualConnections s a b = filter (\<lambda>x. user_id x \<in> set mutualIds) (users s)"
    unfolding g by (cases mutualIds) simp_all
  moreover have "set mutualIds = counterpart_ids s a \<inter> counterpart_ids s b"
    unfolding mutualIds_def ids1_def ids2_def
    by (simp only: set_filter connected_ids) blast
  ultimately show ?thesis by auto
qed

text \<open>
  Claim C5. The users returned by \<open>getMutualConnections\<close> for \<open>a\<close> and \<open>b\<close> are the
  rows of the users table whose id lies in the intersection of the two counterpart-id
  sets, each taken over the accepted rows in both directions; the set of users returned
  is the same for \<open>b\<close> and \<open>a\<close>.
\<close>

theorem mutual_connections_symmetric:
  "set (getMutualConnections s a b)
     = {x \<in> set (users s). user_id x \<in> counterpart_ids s a \<inter> counterpart_ids s b}
   \<and> set (getMutualConnections s a b) = set (getMutualConnections s b a)"
  by (auto simp: mutual_ids)

text \<open>
  C5 at a concrete table: user 1 asked user 3, user 3 asked user 2, both accepted.
\<close>

theorem mutual_connections_symmetric_witness:
  "getMutualConnections db_mutual 1 2 = [\<lparr>user_id = 3, username = ''carol'', role = ''Patient''\<rparr>]
   \<and> getMutualConnections db_mutual 2 1 = [\<lparr>user_id = 3, username = ''carol'', role = ''Patient''\<rparr>]"
  using mutual_connections_symmetric [of db_mutual 1 2]
  by (simp add: getMutualConnections_def new_Set_def ex_defs)

subsection \<open>Suggestions\<close>

text \<open>
  Claim C7. The users suggested to \<open>u\<close> are all users, minus \<open>u\<close>, minus every user at
  either end of a connection row that involves \<open>u\<close>; the status of the row plays no
  part, so the other party of a pending or rejected row is never suggested.
\<close>

theorem suggestions_exclude_all_endpoints:
  "set (getUserSuggestions s u)
     = set (users s) - {x. user_id x = u} - {x. user_id x \<in> endpoint_ids s u}
   \<and> (\<forall>c \<in> set (connections s). \<forall>x \<in> set (getUserSuggestions s u).
         (userId c = u \<longrightarrow> user_id x \<noteq> connectedUserId c)
         \<and> (connectedUserId c = u \<longrightarrow> user_id x \<noteq> userId c))"
  by (auto simp: getUserSuggestions_def Let_def set_new_Set endpoint_ids_def)

text \<open>
  C7 at concrete tables: user 2 is not suggested to user 1 after a rejected request, nor
  user 1 to user 2 while the request is pending.
\<close>

theorem suggestions_exclude_all_endpoints_witness:
  "getUserSuggestions db_rejected 1 = [\<lparr>user_id = 3, username = ''carol'', role = ''Patient''\<rparr>]
   \<and> getUserSuggestions db_pending 2 = [\<lparr>user_id = 3, username = ''carol'', role = ''Patient''\<rparr>]
   \<and> row_rejected \<in> set (connections db_rejected)
   \<and> row_pending \<in> set (connections db_pending)"
  using suggestions_exclude_all_endpoints [of db_rejected 1]
    suggestions_exclude_all_endpoints [of db_pending 2]
  by (simp add: getUserSuggestions_def new_Set_def ex_defs)

subsection \<open>Status codes of the middleware\<close>

text \<open>
  Claim C8 as written reports every authentication failure with 401. The token middleware
  answers 403 when the header is there and the token does not verify, be it expired or
  forged.
\<close>

theorem invalid_token_counterexample:
  "authenticateJWT demo_verify \<lparr>authorization = Some ''Bearer expired'', req_user = None\<rparr>
     = Sent (Response 403 StatusText)
   \<and> authenticateJWT demo_verify \<lparr>authorization = Some ''Bearer forged'', req_user = None\<rparr>
     = Sent (Response 403 StatusText)"
  by (simp add: authenticateJWT_def demo_verify_def)

text \<open>
  Claim C8, amended. A request without an \<open>Authorization\<close> header (or with an empty
  one) gets 401. A request whose header is there gets 403 when the token fails
  verification, whatever the reason, and goes on with the payload as \<open>req.user\<close>
  otherwise. The role gate answers 403 when the user's role is not among the allowed ones,
  and 401 when there is no user or no role.
\<close>

theorem auth_status_codes:
  "(authorization req = None \<or> authorization req = Some [] \<longrightarrow>
      authenticateJWT verify req = Sent (Response 401 StatusText))
   \<and> (authorization req = Some h \<and> h \<noteq> []
        \<and> verify (at_index (split_on (CHR '' '') h) 1) = Inl e \<longrightarrow>
      authenticateJWT verify req = Sent (Response 403 StatusText))
   \<and> (authorization req = Some h \<and> h \<noteq> []
        \<and> verify (at_index (split_on (CHR '' '') h) 1) = Inr u \<longrightarrow>
      authenticateJWT verify req = Next (req\<lparr>req_user := Some u\<rparr>))
   \<and> (req_user req = Some u \<and> au_role u \<noteq> [] \<and> au_role u \<notin> set allowedRoles \<longrightarrow>
      authorizeRoles allowedRoles req = Sent (Response 403 StatusText))
   \<and> (req_user req = None \<or> (req_user req = Some u \<and> au_role u = []) \<longrightarrow>
      authorizeRoles allowedRoles req = Sent (Response 401 StatusText))"
  by (auto simp: authenticateJWT_def authorizeRoles_def)

text \<open>
  C8 (amended) at concrete requests: no header, an expired token, a good token, and the
  role gate for doctors met by a student and by a doctor.
\<close>

theorem auth_status_codes_witness:
  "authenticateJWT demo_verify \<lparr>authorization = None, req_user = None\<rparr>
     = Sent (Response 401 StatusText)
   \<and> authenticateJWT demo_verify \<lparr>authorization = Some ''Bearer expired'', req_user = None\<rparr>
     = Sent (Response 403 StatusText)
   \<and> authenticateJWT demo_verify \<lparr>authorization = Some ''Bearer good'', req_user = None\<rparr>
     = Next \<lparr>authorization = Some ''Bearer good'', req_user = Some alice\<rparr>
   \<and> authorizeRoles [''Doctor''] \<lparr>authorization = Some ''Bearer good'', req_user = Some bob\<rparr>
     = Sent (Response 403 StatusText)
   \<and> authorizeRoles [''Doctor''] \<lparr>authorization = Some ''Bearer good'', req_user = Some alice\<rparr>
     = Next \<lparr>authorization = Some ''Bearer good'', req_user = Some alice\<rparr>"
  using auth_status_codes [of "\<lparr>authorization = None, req_user = None\<rparr>" demo_verify]
    auth_status_codes [of "\<lparr>authorization = Some ''Bearer expired'', req_user = None\<rparr>" demo_verify
                          "''Bearer expired''" TokenExpiredError]
    auth_status_codes [of "\<lparr>authorization = Some ''Bearer good'', req_user = None\<rparr>" demo_verify
                          "''Bearer good''" _ alice]
    auth_status_codes [of "\<lparr>authorization = Some ''Bearer good'', req_user = Some bob\<rparr>" _ _ _ bob "[''Doctor'']"]
  by (simp add: authenticateJWT_def authorizeRoles_def demo_verify_def ex_defs)

subsection \<open>Like toggle\<close>

lemma likes_wf_iff: "likes_wf s \<longleftrightarrow> (\<forall>l \<in> set (likes s). like_id l < likes_seq s)"
  by (auto simp: likes_wf_def filter_empty_conv)

lemma like_handler_create:
  assumes "likes_wf s" "post_exists s p" "user_exists s (au_id u)" "\<not> has_like s p (au_id u)"
  shows "like_handler s (Some u) (Some p) =
           (Response 200 (LikeJson ''Post liked successfully.'' True
              (Some \<lparr>like_id = likes_seq s, like_postId = p, like_userId = au_id u\<rparr>)
              (Suc (length (getLikesForPost s p)))),
            s\<lparr>likes_seq := likes_seq s + 1,
               likes := likes s @ [\<lparr>like_id = likes_seq s, like_postId = p, like_userId = au_id u\<rparr>]\<rparr>)"
proof -
  have "likes_seq s \<notin> like_id ` set (likes s)"
    using assms(1) by (auto simp: likes_wf_iff)
  then show ?thesis
    using assms
    by (simp add: like_handler_def createLike_def Let_def has_like_def getLikesForPost_def
          post_exists_def user_exists_def)
qed

lemma like_handler_unlike:
  assumes "has_like s p (au_id u)"
  shows "like_handler s (Some u) (Some p) =
           (Response 200 (LikeJson ''Post unliked successfully.'' False None
              (length (filter (\<lambda>l. like_postId l = p)
                 (filter (\<lambda>l. \<not> (like_postId l = p \<and> like_userId l = au_id u)) (likes s))))),
            s\<lparr>likes_seq := likes_seq s + 1,
               likes := filter (\<lambda>l. \<not> (like_postId l = p \<and> like_userId l = au_id u)) (likes s)\<rparr>)"
proof -
  have c: "createLike s p (au_id u) =
             (Failure ''User has already liked this post.'' True, s\<lparr>likes_seq := likes_seq s + 1\<rparr>)"
    using assms by (auto simp: createLike_def Let_def has_like_def)
  show ?thesis
    by (simp add: like_handler_def c deleteLike_def Let_def getLikesForPost_def)
qed

lemma filter_other_pairs:
  "\<not> has_like s p uid \<Longrightarrow>
   filter (\<lambda>l. like_postId l = p \<longrightarrow> like_userId l \<noteq> uid) (likes s) = likes s"
  by (auto simp: has_like_def filter_id_conv image_iff)

text \<open>
  Claim C4. Let the post and the user exist, the sequence of the likes table be ahead of
  its ids, and no like row be there for the pair. Then three calls of the like endpoint in
  a row report liked, not liked, liked: the first stores a like row, the second removes
  it (the table is as at the start), the third stores one again. And from any state that
  has a like row for the pair, \<open>createLike\<close> returns the already-exists result of the
  uniqueness violation, and the endpoint turns it into an unlike: it reports not liked and
  leaves no row for the pair.
\<close>

theorem like_toggles:
  assumes wf: "likes_wf s" and pe: "post_exists s p" and ue: "user_exists s (au_id u)"
    and fresh: "\<not> has_like s p (au_id u)"
    and first: "like_handler s (Some u) (Some p) = (r1, s1)"
    and second: "like_handler s1 (Some u) (Some p) = (r2, s2)"
    and third: "like_handler s2 (Some u) (Some p) = (r3, s3)"
  shows "reports_liked r1 True \<and> has_like s1 p (au_id u)
       \<and> reports_liked r2 False \<and> \<not> has_like s2 p (au_id u) \<and> likes s2 = likes s
       \<and> reports_liked r3 True \<and> has_like s3 p (au_id u)
       \<and> (\<forall>t. has_like t p (au_id u) \<longrightarrow>
             fst (createLike t p (au_id u)) = Failure ''User has already liked this post.'' True
             \<and> reports_liked (fst (like_handler t (Some u) (Some p))) False
             \<and> \<not> has_like (snd (like_handler t (Some u) (Some p))) p (au_id u))"
proof -
  let ?row = "\<lparr>like_id = likes_seq s, like_postId = p, like_userId = au_id u\<rparr>"
  have s1: "s1 = s\<lparr>likes_seq := likes_seq s + 1, likes := likes s @ [?row]\<rparr>"
    and r1: "reports_liked r1 True"
    using like_handler_create [OF wf pe ue fresh] first by auto
  have h1: "has_like s1 p (au_id u)"
    by (simp add: s1 has_like_def)
  have keep: "filter (\<lambda>l. like_postId l = p \<longrightarrow> like_userId l \<noteq> au_id u) (likes s) = likes s"
    using fresh by (rule filter_other_pairs)
  have s2: "s2 = s\<lparr>likes_seq := likes_seq s + 2, likes := likes s\<rparr>"
    and r2: "reports_liked r2 False"
    using like_handler_unlike [OF h1] second by (auto simp: s1 keep)
  have wf2: "likes_wf s2" using wf by (auto simp: likes_wf_iff s2)
  have pe2: "post_exists s2 p" using pe by (simp add: post_exists_def s2)
  have ue2: "user_exists s2 (au_id u)" using ue by (simp add: user_exists_def s2)
  have n2: "\<not> has_like s2 p (au_id u)" using fresh by (simp add: has_like_def s2)
  have r3: "reports_liked r3 True" and h3: "has_like s3 p (au_id u)"
    using like_handler_create [OF wf2 pe2 ue2 n2] third by (auto simp: has_like_def)
  have dup: "fst (createLike t p (au_id u)) = Failure ''User has already liked this post.'' True
             \<and> reports_liked (fst (like_handler t (Some u) (Some p))) False
             \<and> \<not> has_like (snd (like_handler t (Some u) (Some p))) p (au_id u)"
    if "has_like t p (au_id u)" for t
    using that like_handler_unlike [OF that]
    by (auto simp: createLike_def Let_def has_like_def)
  show ?thesis
    using r1 h1 r2 n2 r3 h3 dup by (simp add: s2)
qed

text \<open>
  C4 at a concrete database: user 2 calls the like endpoint for post 1 three times.
\<close>

theorem like_toggles_witness:
  "likes_wf db0 \<and> post_exists db0 1 \<and> user_exists db0 (au_id bob) \<and> \<not> has_like db0 1 (au_id bob)
   \<and> like_handler db0 (Some bob) (Some 1) =
       (Response 200 (LikeJson ''Post liked successfully.'' True
          (Some \<lparr>like_id = 1, like_postId = 1, like_userId = 2\<rparr>) 1),
        db0\<lparr>likes := [\<lparr>like_id = 1, like_postId = 1, like_userId = 2\<rparr>], likes_seq := 2\<rparr>)
   \<and> like_handler (db0\<lparr>likes := [\<lparr>like_id = 1, like_postId = 1, like_userId = 2\<rparr>], likes_seq := 2\<rparr>)
        (Some bob) (Some 1) =
       (Response 200 (LikeJson ''Post unliked successfully.'' False None 0),
        db0\<lparr>likes := [], likes_seq := 3\<rparr>)
   \<and> like_handler (db0\<lparr>likes := [], likes_seq := 3\<rparr>) (Some bob) (Some 1) =
       (Response 200 (LikeJson ''Post liked successfully.'' True
          (Some \<lparr>like_id = 3, like_postId = 1, like_userId = 2\<rparr>) 1),
        db0\<lparr>likes := [\<lparr>like_id = 3, like_postId = 1, like_userId = 2\<rparr>], likes_seq := 4\<rparr>)"
proof -
  have a: "likes_wf db0" "post_exists db0 1" "user_exists db0 (au_id bob)"
    "\<not> has_like db0 1 (au_id bob)"
    by (simp_all add: likes_wf_def post_exists_def user_exists_def has_like_def ex_defs)
  have e1: "like_handler db0 (Some bob) (Some 1) =
       (Response 200 (LikeJson ''Post liked successfully.'' True
          (Some \<lparr>like_id = 1, like_postId = 1, like_userId = 2\<rparr>) 1),
        db0\<lparr>likes := [\<lparr>like_id = 1, like_postId = 1, like_userId = 2\<rparr>], likes_seq := 2\<rparr>)"
    by (simp add: like_handler_def createLike_def deleteLike_def getLikesForPost_def Let_def
          post_exists_def user_exists_def ex_defs)
  have e2: "like_handler (db0\<lparr>likes := [\<lparr>like_id = 1, like_postId = 1, like_userId = 2\<rparr>], likes_seq := 2\<rparr>)
        (Some bob) (Some 1) =
       (Response 200 (LikeJson ''Post unliked successfully.'' False None 0),
        db0\<lparr>likes := [], likes_seq := 3\<rparr>)"
    by (simp add: like_handler_def createLike_def deleteLike_def getLikesForPost_def Let_def
          post_exists_def user_exists_def ex_defs)
  have e3: "like_handler (db0\<lparr>likes := [], likes_seq := 3\<rparr>) (Some bob) (Some 1) =
       (Response 200 (LikeJson ''Post liked successfully.'' True
          (Some \<lparr>like_id = 3, like_postId = 1, like_userId = 2\<rparr>) 1),
        db0\<lparr>likes := [\<lparr>like_id = 3, like_postId = 1, like_userId = 2\<rparr>], likes_seq := 4\<rparr>)"
    by (simp add: like_handler_def createLike_def deleteLike_def getLikesForPost_def Let_def
          post_exists_def user_exists_def ex_defs)
  show ?thesis
    using a e1 e2 e3 like_toggles [OF a e1 e2 e3] by simp
qed

subsection \<open>Saving a post\<close>

lemma savedPosts_wf_iff:
  "savedPosts_wf s \<longleftrightarrow>
     distinct (map (\<lambda>r. (sp_postId r, sp_userId r)) (savedPosts s))
     \<and> distinct (map sp_id (savedPosts s))
     \<and> (\<forall>r \<in> set (savedPosts s). sp_id r < savedPosts_seq s)"
  by (auto simp: savedPosts_wf_def filter_empty_conv)

lemma find_pair_None:
  "find (\<lambda>r. sp_postId r = p \<and> sp_userId r = u) rows = None
     \<longleftrightarrow> (p, u) \<notin> (\<lambda>r. (sp_postId r, sp_userId r)) ` set rows"
  by (auto simp: find_None_iff image_iff)

lemma find_pair_Some:
  "find (\<lambda>r. sp_postId r = p \<and> sp_userId r = u) rows = Some e \<Longrightarrow>
     e \<in> set rows \<and> sp_postId e = p \<and> sp_userId e = u"
  by (auto simp: find_Some_iff)

lemma delete_by_id_is_delete_by_pair:
  assumes "distinct (map (\<lambda>r. (sp_postId r, sp_userId r)) rows)"
    and "distinct (map sp_id rows)" and "e \<in> set rows"
  shows "filter (\<lambda>r. sp_id r \<noteq> sp_id e) rows
           = filter (\<lambda>r. \<not> (sp_postId r = sp_postId e \<and> sp_userId r = sp_userId e)) rows"
proof (rule filter_cong [OF refl])
  fix r assume r: "r \<in> set rows"
  have "sp_id r = sp_id e \<longleftrightarrow> r = e"
    using assms(2,3) r by (auto simp: distinct_map dest: inj_onD)
  moreover have "(sp_postId r, sp_userId r) = (sp_postId e, sp_userId e) \<longleftrightarrow> r = e"
    using assms(1,3) r by (auto simp: distinct_map dest: inj_onD)
  ultimately show "(sp_id r \<noteq> sp_id e)
      = (\<not> (sp_postId r = sp_postId e \<and> sp_userId r = sp_userId e))"
    by simp
qed

lemma filter_absent_pair:
  "(p, u) \<notin> (\<lambda>r. (sp_postId r, sp_userId r)) ` set rows \<Longrightarrow>
   filter (\<lambda>r. \<not> (sp_postId r = p \<and> sp_userId r = u)) rows = rows"
  by (auto simp: filter_id_conv image_iff)

lemma savePost_rows:
  assumes wf: "savedPosts_wf s"
  shows "savedPosts (snd (savePost s u p f)) =
           (if f then
              (if (p, u) \<in> (\<lambda>r. (sp_postId r, sp_userId r)) ` set (savedPosts s)
                  \<or> \<not> (post_exists s p \<and> user_exists s u)
               then savedPosts s
               else savedPosts s @ [\<lparr>sp_id = savedPosts_seq s, sp_postId = p, sp_userId = u\<rparr>])
            else filter (\<lambda>r. \<not> (sp_postId r = p \<and> sp_userId r = u)) (savedPosts s))"
proof (cases "find (\<lambda>r. sp_postId r = p \<and> sp_userId r = u) (savedPosts s)")
  case None
  then have absent: "(p, u) \<notin> (\<lambda>r. (sp_postId r, sp_userId r)) ` set (savedPosts s)"
    by (simp add: find_pair_None)
  have fresh: "savedPosts_seq s \<notin> sp_id ` set (savedPosts s)"
    using wf by (auto simp: savedPosts_wf_iff)
  show ?thesis
    using None absent fresh filter_absent_pair [OF absent]
    by (simp add: savePost_def insert_savedPost_def Let_def)
next
  case (Some e)
  then have e: "e \<in> set (savedPosts s)" "sp_postId e = p" "sp_userId e = u"
    using find_pair_Some by blast+
  then have present: "(p, u) \<in> (\<lambda>r. (sp_postId r, sp_userId r)) ` set (savedPosts s)"
    by (auto simp: image_iff)
  have "filter (\<lambda>r. sp_id r \<noteq> sp_id e) (savedPosts s)
          = filter (\<lambda>r. \<not> (sp_postId r = p \<and> sp_userId r = u)) (savedPosts s)"
    using delete_by_id_is_delete_by_pair [of "savedPosts s" e] wf e
    by (simp add: savedPosts_wf_iff)
  then show ?thesis
    using Some present by (simp add: savePost_def Let_def)
qed

lemma savePost_other_tables:
  "posts (snd (savePost s u p f)) = posts s \<and> users (snd (savePost s u p f)) = users s"
  by (simp add: savePost_def insert_savedPost_def Let_def split: option.splits)

lemma savePost_seq:
  "savedPosts_seq (snd (savePost s u p f)) = savedPosts_seq s
   \<or> savedPosts_seq (snd (savePost s u p f)) = savedPosts_seq s + 1"
  by (simp add: savePost_def insert_savedPost_def Let_def split: option.splits)

lemma savePost_seq_new_row:
  "savedPosts_wf s \<Longrightarrow>
   savedPosts (snd (savePost s u p f)) \<noteq> savedPosts s \<Longrightarrow> f \<Longrightarrow>
   savedPosts_seq (snd (savePost s u p f)) = savedPosts_seq s + 1"
  by (auto simp: savePost_def insert_savedPost_def Let_def split: option.splits if_splits)

lemma savePost_wf:
  assumes wf: "savedPosts_wf s"
  shows "savedPosts_wf (snd (savePost s u p f))"
proof (cases "savedPosts (snd (savePost s u p f)) = savedPosts s")
  case True
  then show ?thesis
    using wf savePost_seq [of s u p f] by (auto simp: savedPosts_wf_iff)
next
  case False
  show ?thesis
  proof (cases f)
    case True
    have seq: "savedPosts_seq (snd (savePost s u p f)) = savedPosts_seq s + 1"
      using wf False True by (rule savePost_seq_new_row)
    have rows: "savedPosts (snd (savePost s u p f)) =
       savedPosts s @ [\<lparr>sp_id = savedPosts_seq s, sp_postId = p, sp_userId = u\<rparr>]"
      and absent: "(p, u) \<notin> (\<lambda>r. (sp_postId r, sp_userId r)) ` set (savedPosts s)"
      using False True savePost_rows [OF wf, of u p f] by (auto split: if_splits)
    show ?thesis
      using wf absent by (auto simp: savedPosts_wf_iff rows seq)
  next
    case f: False
    have rows: "savedPosts (snd (savePost s u p f)) =
       filter (\<lambda>r. \<not> (sp_postId r = p \<and> sp_userId r = u)) (savedPosts s)"
      using f savePost_rows [OF wf, of u p f] by simp
    have seq: "savedPosts_seq (snd (savePost s u p f)) = savedPosts_seq s"
      using f by (simp add: savePost_def Let_def split: option.splits)
    show ?thesis
      using wf by (auto simp: savedPosts_wf_iff rows seq distinct_map_filter)
  qed
qed

text \<open>
  Claim C9. On a saved-posts table with at most one row for each (post, user) pair, as
  \<open>savePost\<close> itself leaves it, running \<open>savePost\<close> twice with the same arguments
  gives the same rows as running it once, and the table still has at most one row for each
  pair. With the flag set, a row is added only when the pair has none (and the post and
  the user exist: otherwise the insert fails and the rows stay); with the flag not set,
  the row of the pair is removed when there is one, and nothing else changes.
\<close>

theorem savePost_idempotent:
  assumes wf: "savedPosts_wf s"
  shows "savedPosts (snd (savePost (snd (savePost s u p f)) u p f))
           = savedPosts (snd (savePost s u p f))
       \<and> savedPosts_wf (snd (savePost s u p f))
       \<and> savedPosts (snd (savePost s u p f)) =
           (if f then
              (if (p, u) \<in> (\<lambda>r. (sp_postId r, sp_userId r)) ` set (savedPosts s)
                  \<or> \<not> (post_exists s p \<and> user_exists s u)
               then savedPosts s
               else savedPosts s @ [\<lparr>sp_id = savedPosts_seq s, sp_postId = p, sp_userId = u\<rparr>])
            else filter (\<lambda>r. \<not> (sp_postId r = p \<and> sp_userId r = u)) (savedPosts s))"
proof -
  let ?s1 = "snd (savePost s u p f)"
  have wf1: "savedPosts_wf ?s1" using wf by (rule savePost_wf)
  have fk: "post_exists ?s1 p = post_exists s p" "user_exists ?s1 u = user_exists s u"
    by (simp_all add: post_exists_def user_exists_def savePost_other_tables)
  have once: "savedPosts ?s1 =
           (if f then
              (if (p, u) \<in> (\<lambda>r. (sp_postId r, sp_userId r)) ` set (savedPosts s)
                  \<or> \<not> (post_exists s p \<and> user_exists s u)
               then savedPosts s
               else savedPosts s @ [\<lparr>sp_id = savedPosts_seq s, sp_postId = p, sp_userId = u\<rparr>])
            else filter (\<lambda>r. \<not> (sp_postId r = p \<and> sp_userId r = u)) (savedPosts s))"
    using wf by (rule savePost_rows)
  have twice: "savedPosts (snd (savePost ?s1 u p f)) = savedPosts ?s1"
  proof (cases f)
    case True
    then show ?thesis
      using savePost_rows [OF wf1, of u p f] once fk
      by (auto split: if_splits)
  next
    case False
    then show ?thesis
      using savePost_rows [OF wf1, of u p f] once by simp
  qed
  show ?thesis using twice wf1 once by blast
qed

text \<open>
  C9 at a concrete database: user 2 saves post 1 twice, then unsaves it twice.
\<close>

theorem savePost_idempotent_witness:
  "savedPosts_wf db0
   \<and> savedPosts (snd (savePost db0 2 1 True)) = [\<lparr>sp_id = 1, sp_postId = 1, sp_userId = 2\<rparr>]
   \<and> savedPosts (snd (savePost (snd (savePost db0 2 1 True)) 2 1 True))
       = [\<lparr>sp_id = 1, sp_postId = 1, sp_userId = 2\<rparr>]
   \<and> savedPosts_wf (snd (savePost db0 2 1 True))
   \<and> savedPosts (snd (savePost (snd (savePost db0 2 1 True)) 2 1 False)) = []
   \<and> savedPosts (snd (savePost (snd (savePost (snd (savePost db0 2 1 True)) 2 1 False)) 2 1 False)) = []"
proof -
  have w: "savedPosts_wf db0" by (simp add: savedPosts_wf_def ex_defs)
  have w1: "savedPosts_wf (snd (savePost db0 2 1 True))"
    using savePost_idempotent [OF w, of 2 1 True] by simp
  have r1: "savedPosts (snd (savePost db0 2 1 True)) = [\<lparr>sp_id = 1, sp_postId = 1, sp_userId = 2\<rparr>]"
    by (simp add: savePost_def insert_savedPost_def Let_def post_exists_def user_exists_def ex_defs)
  show ?thesis
    using w w1 r1 savePost_idempotent [OF w, of 2 1 True]
      savePost_idempotent [OF w1, of 2 1 False]
    by simp
qed

subsection \<open>Sharing a document\<close>

text \<open>
  Claim C10. \<open>shareDocument\<close> leaves out the user ids that already have a sharing row
  for the document, but it does not look for an id that comes twice in the list it is
  given: sharing document 1 with the list [2, 2] on a table without rows stores the pair
  (document 1, user 2) twice.
\<close>

theorem shareDocument_repeated_id:
  "documentSharings_wf db0
   \<and> shareDocument db0 1 [2, 2] =
       (None, db0\<lparr>documentSharings_seq := 3,
                   documentSharings := [\<lparr>ds_id = 1, ds_documentId = 1, ds_userId = 2\<rparr>,
                                        \<lparr>ds_id = 2, ds_documentId = 1, ds_userId = 2\<rparr>]\<rparr>)
   \<and> \<not> documentSharings_wf (snd (shareDocument db0 1 [2, 2]))"
  by (simp add: shareDocument_def insert_documentSharings_def new_Set_def Let_def
        document_exists_def user_exists_def documentSharings_wf_def ex_defs)

text \<open>
  The rest of C10 holds. The rows stored before stay as they are and the new rows are for
  the ids without a row; a second call with the same arguments stores nothing more; and
  for a list without repetitions no pair is stored twice.
\<close>

lemma documentSharings_wf_iff:
  "documentSharings_wf s \<longleftrightarrow>
     distinct (map (\<lambda>r. (ds_documentId r, ds_userId r)) (documentSharings s))
     \<and> distinct (map ds_id (documentSharings s))
     \<and> (\<forall>r \<in> set (documentSharings s). ds_id r < documentSharings_seq s)"
  by (auto simp: documentSharings_wf_def filter_empty_conv)

lemma number_rows_pairs:
  "map (\<lambda>r. (ds_documentId r, ds_userId r)) (number_rows i vs) = vs"
  by (induction i vs rule: number_rows.induct) auto

lemma number_rows_ids:
  "map ds_id (number_rows i vs) = map (\<lambda>k. i + int k) [0..<length vs]"
proof (induction i vs rule: number_rows.induct)
  case (1 i)
  then show ?case by simp
next
  case (2 i d u vs)
  have "map (\<lambda>k. i + int k) [0..<Suc (length vs)]
          = i # map (\<lambda>k. i + 1 + int k) [0..<length vs]"
    by (simp add: upt_conv_Cons map_Suc_upt [symmetric] del: upt_Suc)
  then show ?case using 2 by simp
qed

lemma number_rows_ids_range:
  "r \<in> set (number_rows i vs) \<Longrightarrow> i \<le> ds_id r"
proof -
  assume "r \<in> set (number_rows i vs)"
  then have "ds_id r \<in> set (map ds_id (number_rows i vs))" by simp
  then show ?thesis unfolding number_rows_ids by auto
qed

lemma number_rows_distinct: "distinct (map ds_id (number_rows i vs))"
  unfolding number_rows_ids by (simp add: distinct_map inj_on_def)

lemma new_shares:
  "map (\<lambda>uid. (d, uid))
     (filter (\<lambda>uid. uid \<notin> set (new_Set (map ds_userId
        (filter (\<lambda>r. ds_documentId r = d \<and> ds_userId r \<in> set userIds) (documentSharings s)))))
        userIds)
   = map (\<lambda>uid. (d, uid))
       (filter (\<lambda>uid. (d, uid) \<notin> (\<lambda>r. (ds_documentId r, ds_userId r)) ` set (documentSharings s))
          userIds)"
  by (rule arg_cong [where f = "map (\<lambda>uid. (d, uid))"], rule filter_cong)
     (auto simp: new_Set_def image_iff)

lemma number_rows_ids_fresh:
  assumes "\<forall>r \<in> set rows. ds_id r < i" "distinct (map ds_id rows)"
  shows "distinct (map ds_id (rows @ number_rows i vs))"
  using assms number_rows_ids_range [of _ i vs]
  by (fastforce simp: number_rows_distinct)

lemma shareDocument_rows:
  assumes ids: "distinct (map ds_id (documentSharings s))"
    and seq: "\<forall>r \<in> set (documentSharings s). ds_id r < documentSharings_seq s"
  shows "documentSharings (snd (shareDocument s d userIds)) =
           (let newShares = map (\<lambda>uid. (d, uid))
                  (filter (\<lambda>uid. (d, uid) \<notin> (\<lambda>r. (ds_documentId r, ds_userId r)) `
                                              set (documentSharings s)) userIds)
            in if newShares = []
                  \<or> filter (\<lambda>(d, u). \<not> (document_exists s d \<and> user_exists s u)) newShares \<noteq> []
               then documentSharings s
               else documentSharings s @ number_rows (documentSharings_seq s) newShares)"
  unfolding shareDocument_def Let_def new_shares insert_documentSharings_def
  using number_rows_ids_fresh [OF seq ids]
  by (simp del: map_append)

lemma shareDocument_seq:
  "documentSharings_seq s \<le> documentSharings_seq (snd (shareDocument s d userIds))"
  by (simp add: shareDocument_def insert_documentSharings_def Let_def)

lemma shareDocument_seq_rows:
  assumes "r \<in> set (documentSharings (snd (shareDocument s d userIds)))"
    and "\<forall>r \<in> set (documentSharings s). ds_id r < documentSharings_seq s"
  shows "ds_id r < documentSharings_seq (snd (shareDocument s d userIds))"
proof (cases "r \<in> set (documentSharings s)")
  case True
  then show ?thesis using assms(2) shareDocument_seq [of s d userIds] by fastforce
next
  case False
  define vals where "vals = map (\<lambda>uid. (d, uid))
              (filter (\<lambda>uid. uid \<notin> set (new_Set (map ds_userId
                 (filter (\<lambda>r. ds_documentId r = d \<and> ds_userId r \<in> set userIds)
                    (documentSharings s))))) userIds)"
  have r: "r \<in> set (number_rows (documentSharings_seq s) vals)"
    and q: "documentSharings_seq (snd (shareDocument s d userIds))
              = documentSharings_seq s + int (length vals)"
    using False assms(1)
    by (auto simp: shareDocument_def insert_documentSharings_def Let_def vals_def
          split: if_splits)
  have "ds_id r \<in> set (map ds_id (number_rows (documentSharings_seq s) vals))"
    using r by simp
  then show ?thesis unfolding number_rows_ids q by auto
qed

lemma shareDocument_other_tables:
  "documents (snd (shareDocument s d userIds)) = documents s
   \<and> users (snd (shareDocument s d userIds)) = users s"
  by (simp add: shareDocument_def insert_documentSharings_def Let_def)

lemma shareDocument_ids_distinct:
  assumes ids: "distinct (map ds_id (documentSharings s))"
    and seq: "\<forall>r \<in> set (documentSharings s). ds_id r < documentSharings_seq s"
  shows "distinct (map ds_id (documentSharings (snd (shareDocument s d userIds))))"
  using shareDocument_rows [OF ids seq, of d userIds] ids number_rows_ids_fresh [OF seq ids]
  by (auto simp: Let_def split: if_splits simp del: map_append)

lemma shareDocument_twice:
  assumes ids: "distinct (map ds_id (documentSharings s))"
    and seq: "\<forall>r \<in> set (documentSharings s). ds_id r < documentSharings_seq s"
  shows "documentSharings (snd (shareDocument (snd (shareDocument s d userIds)) d userIds))
           = documentSharings (snd (shareDocument s d userIds))"
proof -
  let ?s1 = "snd (shareDocument s d userIds)"
  let ?pairs = "\<lambda>t. (\<lambda>r. (ds_documentId r, ds_userId r)) ` set (documentSharings t)"
  let ?new = "\<lambda>t. map (\<lambda>uid. (d, uid)) (filter (\<lambda>uid. (d, uid) \<notin> ?pairs t) userIds)"
  let ?fk = "\<lambda>t vals. filter (\<lambda>(d, u). \<not> (document_exists t d \<and> user_exists t u)) vals"
  have ids1: "distinct (map ds_id (documentSharings ?s1))"
    using ids seq by (rule shareDocument_ids_distinct)
  have seq1: "\<forall>r \<in> set (documentSharings ?s1). ds_id r < documentSharings_seq ?s1"
    using shareDocument_seq_rows [OF _ seq] by blast
  have fk: "document_exists ?s1 x = document_exists s x" "user_exists ?s1 x = user_exists s x" for x
    by (simp_all add: document_exists_def user_exists_def shareDocument_other_tables)
  have one: "documentSharings ?s1 =
      (if ?new s = [] \<or> ?fk s (?new s) \<noteq> [] then documentSharings s
       else documentSharings s @ number_rows (documentSharings_seq s) (?new s))"
    using shareDocument_rows [OF ids seq, of d userIds] by (simp add: Let_def)
  have two: "documentSharings (snd (shareDocument ?s1 d userIds)) =
      (if ?new ?s1 = [] \<or> ?fk s (?new ?s1) \<noteq> [] then documentSharings ?s1
       else documentSharings ?s1 @ number_rows (documentSharings_seq ?s1) (?new ?s1))"
    using shareDocument_rows [OF ids1 seq1, of d userIds] by (simp add: Let_def fk)
  show ?thesis
  proof (cases "?new s = [] \<or> ?fk s (?new s) \<noteq> []")
    case True
    then have "documentSharings ?s1 = documentSharings s" using one by simp
    then have "?new ?s1 = ?new s" by simp
    then show ?thesis using two True by simp
  next
    case False
    then have rows: "documentSharings ?s1 =
        documentSharings s @ number_rows (documentSharings_seq s) (?new s)"
      using one by simp
    have "?pairs ?s1 = ?pairs s \<union> set (?new s)"
      unfolding rows using number_rows_pairs [of "documentSharings_seq s" "?new s"]
      by (metis (no_types, lifting) image_Un image_set set_append)
    then have "?new ?s1 = []"
      by (auto simp: filter_empty_conv)
    then show ?thesis using two by simp
  qed
qed

lemma shareDocument_distinct_pairs:
  assumes wf: "documentSharings_wf s" and du: "distinct userIds"
  shows "documentSharings_wf (snd (shareDocument s d userIds))"
proof -
  let ?s1 = "snd (shareDocument s d userIds)"
  let ?pair = "\<lambda>r. (ds_documentId r, ds_userId r)"
  let ?new = "map (\<lambda>uid. (d, uid)) (filter (\<lambda>uid. (d, uid) \<notin> ?pair ` set (documentSharings s)) userIds)"
  have ids: "distinct (map ds_id (documentSharings s))"
    and seq: "\<forall>r \<in> set (documentSharings s). ds_id r < documentSharings_seq s"
    and pairs: "distinct (map ?pair (documentSharings s))"
    using wf by (simp_all add: documentSharings_wf_iff)
  have ids1: "distinct (map ds_id (documentSharings ?s1))"
    using ids seq by (rule shareDocument_ids_distinct)
  have seq1: "\<forall>r \<in> set (documentSharings ?s1). ds_id r < documentSharings_seq ?s1"
    using shareDocument_seq_rows [OF _ seq] by blast
  have dn: "distinct ?new"
    using du by (simp add: distinct_map inj_on_def)
  have disj: "set (map ?pair (documentSharings s)) \<inter> set ?new = {}"
    by auto
  have "distinct (map ?pair (documentSharings s) @ ?new)"
    using pairs dn disj by (simp only: distinct_append)
  then have "distinct (map ?pair (documentSharings s @ number_rows (documentSharings_seq s) ?new))"
    by (simp only: map_append number_rows_pairs)
  then have pairs1: "distinct (map ?pair (documentSharings ?s1))"
    using shareDocument_rows [OF ids seq, of d userIds] pairs
    by (auto simp: Let_def split: if_splits simp del: map_append)
  show ?thesis
    using ids1 seq1 pairs1 by (simp add: documentSharings_wf_iff)
qed

end
